theory Spec2Isabelle
  imports Main "HOL-Library.List_Lexorder" "HOL-Library.Char_ord"
begin

section \<open>Values, tables and errors\<close>

text \<open>
  The importer of \<^verbatim>\<open>simple/stats/importer.py\<close> works on pandas data frames. A frame is
  modelled row-wise: the column labels, and the rows in order, each row carrying its index
  label and its cells. Frames are rectangular (every row has one cell per column); a read
  of a cell a short row does not have gives \<open>NaN\<close>, the fill value of pandas.

  A cell is a string, a number or the missing value (NaN, what \<^verbatim>\<open>read_csv\<close> makes of an
  empty field). Strings are lists of characters, read as code points below 256.
\<close>

datatype cell = Str string | Num int | NaN

datatype error = OSError | KeyError | IndexError | AttributeError | ResolverError

record dataframe =
  columns :: "string list"
  rows :: "(nat \<times> cell list) list"

type_synonym csv = "string list \<times> cell list list"

type_synonym 'a dict = "(string \<times> 'a) list"

text \<open>
  The module \<^verbatim>\<open>constants\<close> is imported by the importer and is not part of the sources:
  its values are parameters of the model.
\<close>

record constants =
  OBSERVATIONS_FILE_NAME :: string
  DEBUG_RESOLVE_FILE_NAME :: string
  COLUMN_DCID :: string
  COLUMN_DATE :: string
  COLUMN_VARIABLE :: string
  COLUMN_VALUE :: string
  DCID_OVERRIDE_PREFIX :: string
  DEBUG_UNRESOLVED_DCID :: string
  DC_BROWSER :: string
  DEBUG_COLUMN_NAME :: string
  DEBUG_COLUMN_DCID :: string
  DEBUG_COLUMN_LINK :: string
  UNPIVOT_VARIABLES :: bool

text \<open>The fields \<^verbatim>\<open>__init__\<close> stores from its arguments.\<close>

record importer =
  input_path :: string
  output_dir :: string
  entity_type :: string
  ignore_columns :: "string list"

text \<open>
  What the run meets outside the program: the file system as it answers the calls of the
  loader and the writer, the resolver of \<^verbatim>\<open>util.dc_client\<close>, and the order in which the
  Python process iterates over a set of strings (it depends on the hash seed of the
  process, not on the program's input).
\<close>

record env =
  makedirs_ok :: "string \<Rightarrow> bool"
  isdir :: "string \<Rightarrow> bool"
  listdir :: "string \<Rightarrow> error + string list"
  read_csv :: "string \<Rightarrow> error + dataframe"
  writable :: "string \<Rightarrow> bool"
  dc_resolve_entities :: "string list \<Rightarrow> string \<Rightarrow> error + string dict"
  list_of_set :: "string set \<Rightarrow> string list"

text \<open>The files written so far, by path.\<close>

type_synonym world = "string \<rightharpoonup> csv"

section \<open>Strings and paths\<close>

definition startswith :: "string \<Rightarrow> string \<Rightarrow> bool" where
  "startswith s p = (take (length p) s = p)"

text \<open>\<^verbatim>\<open>str.isspace\<close> on a code point below 256.\<close>

definition isspace :: "char \<Rightarrow> bool" where
  "isspace ch = ((of_char ch :: nat) \<in> set [9, 10, 11, 12, 13, 28, 29, 30, 31, 32, 133, 160])"

definition strip :: "string \<Rightarrow> string" where
  "strip s = rev (dropWhile isspace (rev (dropWhile isspace s)))"

text \<open>\<^verbatim>\<open>os.path.join\<close> of two components (POSIX).\<close>

definition path_join :: "string \<Rightarrow> string \<Rightarrow> string" where
  "path_join a b =
     (if startswith b ''/'' then b
      else if a = [] \<or> last a = CHR ''/'' then a @ b
      else a @ ''/'' @ b)"

definition observations_file :: "constants \<Rightarrow> importer \<Rightarrow> string" where
  "observations_file c self = path_join (output_dir self) (OBSERVATIONS_FILE_NAME c)"

definition debug_resolve_file :: "constants \<Rightarrow> importer \<Rightarrow> string" where
  "debug_resolve_file c self = path_join (output_dir self) (DEBUG_RESOLVE_FILE_NAME c)"

section \<open>Frames\<close>

definition cell_at :: "cell list \<Rightarrow> nat \<Rightarrow> cell" where
  "cell_at cs j = (if j < length cs then cs ! j else NaN)"

definition empty_frame :: dataframe where
  "empty_frame = \<lparr>columns = [], rows = []\<rparr>"

text \<open>The position of the first column with a label, if any.\<close>

fun find_column :: "string list \<Rightarrow> string \<Rightarrow> nat option" where
  "find_column [] name = None"
| "find_column (c # cs) name =
     (if c = name then Some 0 else map_option Suc (find_column cs name))"

text \<open>The cells of a row under the given labels, by label; a label the frame lacks gives NaN.\<close>

definition reindex_row :: "string list \<Rightarrow> string list \<Rightarrow> cell list \<Rightarrow> cell list" where
  "reindex_row old new cs =
     map (\<lambda>name. case find_column old name of None \<Rightarrow> NaN | Some j \<Rightarrow> cell_at cs j) new"

text \<open>
  \<^verbatim>\<open>pd.concat([a, b])\<close>: the rows of both frames with their index labels, under the union
  of the columns in order of appearance.
\<close>

definition pd_concat :: "dataframe \<Rightarrow> dataframe \<Rightarrow> dataframe" where
  "pd_concat a b =
     (let cols = columns a @ filter (\<lambda>name. name \<notin> set (columns a)) (columns b)
      in \<lparr>columns = cols,
          rows = map (\<lambda>(l, cs). (l, reindex_row (columns a) cols cs)) (rows a) @
                 map (\<lambda>(l, cs). (l, reindex_row (columns b) cols cs)) (rows b)\<rparr>)"

text \<open>\<^verbatim>\<open>to_csv(path, index=False)\<close> writes the labels of the columns and the cells of the rows.\<close>

definition csv_of :: "dataframe \<Rightarrow> csv" where
  "csv_of df = (columns df, map snd (rows df))"

section \<open>The loader\<close>

fun read_all :: "env \<Rightarrow> string list \<Rightarrow> dataframe \<Rightarrow> error + dataframe" where
  "read_all e [] df = Inr df"
| "read_all e (file # files) df =
     (case read_csv e file of
        Inl err \<Rightarrow> Inl err
      | Inr d \<Rightarrow> read_all e files (pd_concat df d))"

definition read_csvs_from_dir :: "env \<Rightarrow> string \<Rightarrow> error + dataframe" where
  "read_csvs_from_dir e input_dir =
     (case listdir e input_dir of
        Inl err \<Rightarrow> Inl err
      | Inr names \<Rightarrow> read_all e (map (path_join input_dir) names) empty_frame)"

definition read_csvs :: "env \<Rightarrow> importer \<Rightarrow> error + dataframe" where
  "read_csvs e self =
     (if isdir e (input_path self) then read_csvs_from_dir e (input_path self)
      else read_csv e (input_path self))"

definition init :: "env \<Rightarrow> importer \<Rightarrow> error + unit" where
  "init e self = (if makedirs_ok e (output_dir self) then Inr () else Inl OSError)"

section \<open>The column normalizer\<close>

text \<open>The cells of a row whose column label passes the test.\<close>

fun keep_cells :: "(string \<Rightarrow> bool) \<Rightarrow> string list \<Rightarrow> cell list \<Rightarrow> cell list" where
  "keep_cells keep (name # names) (x # xs) =
     (if keep name then x # keep_cells keep names xs else keep_cells keep names xs)"
| "keep_cells keep names xs = []"

text \<open>
  \<^verbatim>\<open>df.drop(columns=labels)\<close>: a label that is not a column raises KeyError; otherwise every
  column with one of the labels goes.
\<close>

definition drop_columns :: "string list \<Rightarrow> dataframe \<Rightarrow> error + dataframe" where
  "drop_columns labels df =
     (if \<exists>name \<in> set labels. name \<notin> set (columns df) then Inl KeyError
      else Inr \<lparr>columns = filter (\<lambda>name. name \<notin> set labels) (columns df),
                rows = map (\<lambda>(l, cs). (l, keep_cells (\<lambda>name. name \<notin> set labels) (columns df) cs))
                         (rows df)\<rparr>)"

definition drop_ignored_columns :: "importer \<Rightarrow> dataframe \<Rightarrow> error + dataframe" where
  "drop_ignored_columns self df =
     (if ignore_columns self \<noteq> [] then drop_columns (ignore_columns self) df else Inr df)"

text \<open>\<^verbatim>\<open>df.columns.values[i] = name\<close>: IndexError when the frame has no column \<open>i\<close>.\<close>

definition set_column_label :: "nat \<Rightarrow> string \<Rightarrow> dataframe \<Rightarrow> error + dataframe" where
  "set_column_label i name df =
     (if i < length (columns df) then Inr (df\<lparr>columns := (columns df)[i := name]\<rparr>)
      else Inl IndexError)"

definition rename_columns :: "constants \<Rightarrow> dataframe \<Rightarrow> error + dataframe" where
  "rename_columns c df =
     (case set_column_label 0 (COLUMN_DCID c) df of
        Inl err \<Rightarrow> Inl err
      | Inr df1 \<Rightarrow>
          if UNPIVOT_VARIABLES c then set_column_label 1 (COLUMN_DATE c) df1 else Inr df1)"

section \<open>The entity resolver\<close>

text \<open>
  A Python dictionary keeps its keys in the order of their first insertion; storing under a
  key it already has replaces the value and leaves the position.
\<close>

fun dict_set :: "'a dict \<Rightarrow> string \<Rightarrow> 'a \<Rightarrow> 'a dict" where
  "dict_set [] k v = [(k, v)]"
| "dict_set ((k', v') # d) k v =
     (if k' = k then (k, v) # d else (k', v') # dict_set d k v)"

text \<open>
  The closure \<^verbatim>\<open>remove_pre_resolved\<close>: its answer for \<^verbatim>\<open>filter\<close>, and the dictionary of
  pre-resolved entities after the call.
\<close>

definition remove_pre_resolved :: "constants \<Rightarrow> string dict \<Rightarrow> string \<Rightarrow> bool \<times> string dict" where
  "remove_pre_resolved c pre entity =
     (if startswith entity (DCID_OVERRIDE_PREFIX c)
      then (False, dict_set pre entity (strip (drop (length (DCID_OVERRIDE_PREFIX c)) entity)))
      else (True, pre))"

text \<open>
  \<^verbatim>\<open>list(filter(remove_pre_resolved, column.tolist()))\<close>. A value that is not a string has
  no \<^verbatim>\<open>startswith\<close>: AttributeError.
\<close>

fun filter_entities :: "constants \<Rightarrow> cell list \<Rightarrow> string dict \<Rightarrow> error + (string list \<times> string dict)" where
  "filter_entities c [] pre = Inr ([], pre)"
| "filter_entities c (Str entity # xs) pre =
     (case remove_pre_resolved c pre entity of
        (keep, pre1) \<Rightarrow>
          (case filter_entities c xs pre1 of
             Inl err \<Rightarrow> Inl err
           | Inr (es, pre2) \<Rightarrow> Inr (if keep then entity # es else es, pre2)))"
| "filter_entities c (x # xs) pre = Inl AttributeError"

text \<open>\<^verbatim>\<open>df.iloc[:, 0]\<close>: IndexError when the frame has no column.\<close>

definition iloc_col0 :: "dataframe \<Rightarrow> error + cell list" where
  "iloc_col0 df =
     (if columns df = [] then Inl IndexError
      else Inr (map (\<lambda>(l, cs). cell_at cs 0) (rows df)))"

text \<open>
  \<^verbatim>\<open>Series.replace(d)\<close> with a dictionary: a value equal to a key becomes the key's value.
  The masks of all keys are taken before any value is written, so a written value is not
  replaced again within the same call.
\<close>

definition series_replace :: "string dict \<Rightarrow> cell \<Rightarrow> cell" where
  "series_replace d x =
     (case x of
        Str s \<Rightarrow> (case map_of d s of None \<Rightarrow> x | Some v \<Rightarrow> Str v)
      | _ \<Rightarrow> x)"

text \<open>
  \<^verbatim>\<open>column.replace(d, inplace=True)\<close>, where \<^verbatim>\<open>column\<close> is the first column of the frame:
  the frame itself changes.
\<close>

definition replace_col0 :: "string dict \<Rightarrow> dataframe \<Rightarrow> dataframe" where
  "replace_col0 d df =
     df\<lparr>rows := map (\<lambda>(l, cs). (l, case cs of [] \<Rightarrow> [] | x # xs \<Rightarrow> series_replace d x # xs))
                    (rows df)\<rparr>"

definition isin :: "cell \<Rightarrow> string list \<Rightarrow> bool" where
  "isin x vals = (case x of Str s \<Rightarrow> s \<in> set vals | _ \<Rightarrow> False)"

text \<open>\<^verbatim>\<open>df[df.iloc[:, 0].isin(values)].index\<close>: the index labels of the matching rows.\<close>

definition isin_index :: "string list \<Rightarrow> dataframe \<Rightarrow> nat list" where
  "isin_index vals df = map fst (filter (\<lambda>(l, cs). isin (cell_at cs 0) vals) (rows df))"

text \<open>\<^verbatim>\<open>df.drop(labels, inplace=True)\<close>: every row with one of the index labels goes.\<close>

definition drop_rows :: "nat list \<Rightarrow> dataframe \<Rightarrow> dataframe" where
  "drop_rows labels df = df\<lparr>rows := filter (\<lambda>(l, cs). l \<notin> set labels) (rows df)\<rparr>"

definition browser_link :: "constants \<Rightarrow> string \<Rightarrow> string" where
  "browser_link c dcid =
     (if dcid = DEBUG_UNRESOLVED_DCID c then [] else DC_BROWSER c @ ''/'' @ dcid)"

definition create_debug_resolve_dataframe ::
    "constants \<Rightarrow> string dict \<Rightarrow> string dict \<Rightarrow> string list \<Rightarrow> dataframe" where
  "create_debug_resolve_dataframe c resolved pre_resolved unresolved =
     (let names = unresolved @ map fst pre_resolved @ map fst resolved;
          dcids = replicate (length unresolved) (DEBUG_UNRESOLVED_DCID c) @
                  map snd pre_resolved @ map snd resolved;
          links = map (browser_link c) dcids
      in \<lparr>columns = [DEBUG_COLUMN_NAME c, DEBUG_COLUMN_DCID c, DEBUG_COLUMN_LINK c],
          rows = enumerate 0
                   (map (\<lambda>(name, dcid, link). [Str name, Str dcid, Str link])
                      (zip names (zip dcids links)))\<rparr>)"

text \<open>
  \<^verbatim>\<open>_resolve_entities\<close>: the frame after the stage and the audit frame
  (\<^verbatim>\<open>self.debug_resolve_df\<close>).
\<close>

definition resolve_entities ::
    "constants \<Rightarrow> env \<Rightarrow> importer \<Rightarrow> dataframe \<Rightarrow> error + (dataframe \<times> dataframe)" where
  "resolve_entities c e self df =
     (case iloc_col0 df of
        Inl err \<Rightarrow> Inl err
      | Inr column \<Rightarrow>
          (case filter_entities c column [] of
             Inl err \<Rightarrow> Inl err
           | Inr (entities, pre_resolved_entities) \<Rightarrow>
               (case dc_resolve_entities e entities (entity_type self) of
                  Inl err \<Rightarrow> Inl err
                | Inr dcids \<Rightarrow>
                    (let df1 = replace_col0 dcids df;
                         unresolved = set entities - set (map fst dcids);
                         unresolved_list = list_of_set e unresolved;
                         df2 = replace_col0 pre_resolved_entities df1;
                         df3 = (if unresolved_list \<noteq> []
                                then drop_rows (isin_index unresolved_list df2) df2
                                else df2)
                     in Inr (df3,
                          create_debug_resolve_dataframe c dcids pre_resolved_entities
                            unresolved_list)))))"

section \<open>The reshaper\<close>

text \<open>
  \<^verbatim>\<open>df.melt(id_vars, var_name, value_name)\<close>: KeyError when an identifier column is
  missing. Every other column is a variable; the long frame has, variable after variable,
  one row per row of the wide frame, under a fresh index 0, 1, 2, ...
\<close>

definition melt :: "string list \<Rightarrow> string \<Rightarrow> string \<Rightarrow> dataframe \<Rightarrow> error + dataframe" where
  "melt id_vars var_name value_name df =
     (if \<exists>name \<in> set id_vars. name \<notin> set (columns df) then Inl KeyError
      else
        (let value_vars = filter (\<lambda>(j, name). name \<notin> set id_vars) (enumerate 0 (columns df));
             long = concat (map (\<lambda>(j, name).
                       map (\<lambda>(l, cs). reindex_row (columns df) id_vars cs @ [Str name, cell_at cs j])
                         (rows df)) value_vars)
         in Inr \<lparr>columns = id_vars @ [var_name, value_name], rows = enumerate 0 long\<rparr>))"

text \<open>\<^verbatim>\<open>dropna()\<close>: the rows with no missing cell, under their labels.\<close>

definition dropna :: "dataframe \<Rightarrow> dataframe" where
  "dropna df = df\<lparr>rows := filter (\<lambda>(l, cs). NaN \<notin> set cs) (rows df)\<rparr>"

definition unpivot_variables :: "constants \<Rightarrow> dataframe \<Rightarrow> error + dataframe" where
  "unpivot_variables c df =
     (case melt [COLUMN_DCID c, COLUMN_DATE c] (COLUMN_VARIABLE c) (COLUMN_VALUE c) df of
        Inl err \<Rightarrow> Inl err
      | Inr long \<Rightarrow> Inr (dropna long))"

text \<open>\<^verbatim>\<open>df.reindex(columns=names)\<close>: the columns under these labels, in this order.\<close>

definition reindex_columns :: "string list \<Rightarrow> dataframe \<Rightarrow> dataframe" where
  "reindex_columns names df =
     \<lparr>columns = names, rows = map (\<lambda>(l, cs). (l, reindex_row (columns df) names cs)) (rows df)\<rparr>"

definition reorder_columns :: "constants \<Rightarrow> dataframe \<Rightarrow> dataframe" where
  "reorder_columns c df =
     reindex_columns [COLUMN_DCID c, COLUMN_VARIABLE c, COLUMN_DATE c, COLUMN_VALUE c] df"

section \<open>The writer and the pipeline\<close>

definition to_csv :: "env \<Rightarrow> string \<Rightarrow> dataframe \<Rightarrow> world \<Rightarrow> (error + unit) \<times> world" where
  "to_csv e path df w =
     (if writable e path then (Inr (), w(path \<mapsto> csv_of df)) else (Inl OSError, w))"

definition write_csvs ::
    "constants \<Rightarrow> env \<Rightarrow> importer \<Rightarrow> dataframe \<Rightarrow> dataframe option \<Rightarrow> world \<Rightarrow> (error + unit) \<times> world" where
  "write_csvs c e self df debug_resolve_df w =
     (case to_csv e (observations_file c self) df w of
        (Inl err, w1) \<Rightarrow> (Inl err, w1)
      | (Inr u, w1) \<Rightarrow>
          (case debug_resolve_df of
             None \<Rightarrow> (Inr (), w1)
           | Some d \<Rightarrow> to_csv e (debug_resolve_file c self) d w1))"

text \<open>
  The stages of \<^verbatim>\<open>do_import\<close> between the read and the write: the final frame and the
  audit frame, or the exception that ends the run.
\<close>

definition transform ::
    "constants \<Rightarrow> env \<Rightarrow> importer \<Rightarrow> dataframe \<Rightarrow> error + (dataframe \<times> dataframe)" where
  "transform c e self df0 =
     (case drop_ignored_columns self df0 of
        Inl err \<Rightarrow> Inl err
      | Inr df1 \<Rightarrow>
          (case rename_columns c df1 of
             Inl err \<Rightarrow> Inl err
           | Inr df2 \<Rightarrow>
               (case resolve_entities c e self df2 of
                  Inl err \<Rightarrow> Inl err
                | Inr (df3, debug_resolve_df) \<Rightarrow>
                    if UNPIVOT_VARIABLES c
                    then (case unpivot_variables c df3 of
                            Inl err \<Rightarrow> Inl err
                          | Inr df4 \<Rightarrow> Inr (reorder_columns c df4, debug_resolve_df))
                    else Inr (df3, debug_resolve_df))))"

definition do_import :: "constants \<Rightarrow> env \<Rightarrow> importer \<Rightarrow> world \<Rightarrow> (error + unit) \<times> world" where
  "do_import c e self w =
     (case init e self of
        Inl err \<Rightarrow> (Inl err, w)
      | Inr u \<Rightarrow>
          (case read_csvs e self of
             Inl err \<Rightarrow> (Inl err, w)
           | Inr df0 \<Rightarrow>
               (case transform c e self df0 of
                  Inl err \<Rightarrow> (Inl err, w)
                | Inr (df, debug_resolve_df) \<Rightarrow>
                    write_csvs c e self df (Some debug_resolve_df) w)))"

section \<open>Example data\<close>

text \<open>
  Modelled from the spec: the values of the module \<^verbatim>\<open>constants\<close>, which is not among the
  sources. The override prefix is the one the importer's own comment and the spec's scenario
  show (\<^verbatim>\<open>dcid:\<close>), the marker of an unresolved name is the one of the scenario; the labels
  of the columns, the names of the files and the address of the browser stand for the fixed
  ones. The examples below run the importer under these values.
\<close>

definition example_constants :: constants where
  "example_constants =
     \<lparr>OBSERVATIONS_FILE_NAME = ''observations.csv'',
      DEBUG_RESOLVE_FILE_NAME = ''debug_resolve.csv'',
      COLUMN_DCID = ''dcid'', COLUMN_DATE = ''date'',
      COLUMN_VARIABLE = ''variable'', COLUMN_VALUE = ''value'',
      DCID_OVERRIDE_PREFIX = ''dcid:'', DEBUG_UNRESOLVED_DCID = ''UNRESOLVED'',
      DC_BROWSER = ''https://datacommons.org/browser'',
      DEBUG_COLUMN_NAME = ''name'', DEBUG_COLUMN_DCID = ''dcid'', DEBUG_COLUMN_LINK = ''link'',
      UNPIVOT_VARIABLES = False\<rparr>"

text \<open>
  A resolver that knows a table of names: it answers with the entries of the names it was
  asked for.
\<close>

definition table_resolver :: "string dict \<Rightarrow> string list \<Rightarrow> string \<Rightarrow> error + string dict" where
  "table_resolver table entities t = Inr (filter (\<lambda>(name, dcid). name \<in> set entities) table)"

text \<open>
  An environment in which every call to the file system succeeds, the input path is a file
  holding the given frame, the resolver knows the given table, and a set is iterated in the
  order in which its elements stand in the given list.
\<close>

definition example_env :: "dataframe \<Rightarrow> string dict \<Rightarrow> string list \<Rightarrow> env" where
  "example_env frame table order =
     \<lparr>makedirs_ok = (\<lambda>path. True), isdir = (\<lambda>path. False), listdir = (\<lambda>path. Inl OSError),
      read_csv = (\<lambda>path. Inr frame), writable = (\<lambda>path. True),
      dc_resolve_entities = table_resolver table,
      list_of_set = (\<lambda>S. filter (\<lambda>name. name \<in> S) order)\<rparr>"

definition example_importer :: importer where
  "example_importer =
     \<lparr>input_path = ''input.csv'', output_dir = ''out'', entity_type = ''Country'',
      ignore_columns = []\<rparr>"

text \<open>The table of the spec's scenario, as \<^verbatim>\<open>read_csv\<close> returns it.\<close>

definition scenario_frame :: dataframe where
  "scenario_frame =
     \<lparr>columns = [''name'', ''val''],
      rows = [(0, [Str ''e1'', Num 10]), (1, [Str ''e2'', Num 20]), (2, [Str ''dcid:X'', Num 30])]\<rparr>"

text \<open>
  The environment of the scenario: the resolver knows \<^verbatim>\<open>e1\<close> only. Three more tables: one
  where the resolver's answer for a name is itself an override reference of the column, one
  where it is another name of the column, and one whose override reference spells the marker
  of unresolved names.
\<close>

definition scenario_env :: env where
  "scenario_env = example_env scenario_frame [(''e1'', ''E1'')] [''e1'', ''e2'']"


definition clash_frame :: dataframe where
  "clash_frame =
     \<lparr>columns = [''name'', ''val''],
      rows = [(0, [Str ''e1'', Num 10]), (1, [Str ''e2'', Num 20])]\<rparr>"

definition marker_frame :: dataframe where
  "marker_frame =
     \<lparr>columns = [''name'', ''val''], rows = [(0, [Str ''dcid:UNRESOLVED'', Num 10])]\<rparr>"


text \<open>
  The example constants with reshaping enabled; a wide table after the resolver, with one
  empty value; and an input table whose only row has no date.
\<close>

definition reshape_constants :: constants where
  "reshape_constants = example_constants\<lparr>UNPIVOT_VARIABLES := True\<rparr>"



text \<open>The scenario's table with a date column, for a run with reshaping enabled.\<close>

definition reshape_scenario_frame :: dataframe where
  "reshape_scenario_frame =
     \<lparr>columns = [''name'', ''year'', ''v1''],
      rows = [(0, [Str ''e1'', Str ''2020'', Num 10]), (1, [Str ''e2'', Str ''2020'', Num 20]),
              (2, [Str ''dcid:X'', Str ''2021'', Num 30])]\<rparr>"



section \<open>Dictionaries and the partition of the entity column\<close>

lemma map_of_dict_set: "map_of (dict_set d k v) = (map_of d)(k \<mapsto> v)"
  by (induction d) (auto simp: fun_eq_iff)

lemma keys_dict_set: "fst ` set (dict_set d k v) = insert k (fst ` set d)"
proof -
  have "fst ` set (dict_set d k v) = dom (map_of (dict_set d k v))"
    by (simp add: dom_map_of_conv_image_fst)
  also have "\<dots> = insert k (dom (map_of d))"
    by (simp add: map_of_dict_set)
  finally show ?thesis
    by (simp add: dom_map_of_conv_image_fst)
qed

lemma distinct_dict_set: "distinct (map fst d) \<Longrightarrow> distinct (map fst (dict_set d k v))"
proof (induction d)
  case Nil
  then show ?case by simp
next
  case (Cons a d)
  obtain k' v' where a: "a = (k', v')" by (cases a)
  show ?case
  proof (cases "k' = k")
    case True
    with Cons.prems show ?thesis by (simp add: a)
  next
    case False
    have "k' \<notin> fst ` set (dict_set d k v)"
      using Cons.prems False by (simp add: a keys_dict_set)
    with Cons False show ?thesis by (simp add: a)
  qed
qed

lemma filter_entities_Cons:
  "filter_entities c (x # xs) pre = Inr (es, pre') \<Longrightarrow>
     \<exists>entity es1. x = Str entity \<and>
        filter_entities c xs (snd (remove_pre_resolved c pre entity)) = Inr (es1, pre') \<and>
        es = (if fst (remove_pre_resolved c pre entity) then entity # es1 else es1)"
  by (cases x) (auto split: sum.splits prod.splits)

lemma filter_entities_strings:
  "filter_entities c xs pre = Inr (es, pre') \<Longrightarrow> x \<in> set xs \<Longrightarrow> \<exists>s. x = Str s"
proof (induction xs arbitrary: pre es)
  case Nil
  then show ?case by simp
next
  case (Cons y ys)
  from filter_entities_Cons [OF Cons.prems(1)] obtain entity es1 where
    y: "y = Str entity" and
    rest: "filter_entities c ys (snd (remove_pre_resolved c pre entity)) = Inr (es1, pre')"
    by blast
  from Cons.IH [OF rest] Cons.prems(2) y show ?case by auto
qed

lemma filter_entities_set:
  "filter_entities c xs pre = Inr (es, pre') \<Longrightarrow>
     set es = {s. Str s \<in> set xs \<and> \<not> startswith s (DCID_OVERRIDE_PREFIX c)}"
proof (induction xs arbitrary: pre es)
  case Nil
  then show ?case by simp
next
  case (Cons x xs)
  from filter_entities_Cons [OF Cons.prems] obtain entity es1 where
    x: "x = Str entity" and
    rest: "filter_entities c xs (snd (remove_pre_resolved c pre entity)) = Inr (es1, pre')" and
    es: "es = (if fst (remove_pre_resolved c pre entity) then entity # es1 else es1)"
    by blast
  from Cons.IH [OF rest] show ?case
    by (auto simp: x es remove_pre_resolved_def)
qed

lemma filter_entities_map_of:
  "filter_entities c xs pre = Inr (es, pre') \<Longrightarrow>
     map_of pre' k =
       (if Str k \<in> set xs \<and> startswith k (DCID_OVERRIDE_PREFIX c)
        then Some (strip (drop (length (DCID_OVERRIDE_PREFIX c)) k))
        else map_of pre k)"
proof (induction xs arbitrary: pre es)
  case Nil
  then show ?case by simp
next
  case (Cons x xs)
  from filter_entities_Cons [OF Cons.prems] obtain entity es1 where
    x: "x = Str entity" and
    rest: "filter_entities c xs (snd (remove_pre_resolved c pre entity)) = Inr (es1, pre')"
    by blast
  from Cons.IH [OF rest] show ?case
    by (auto simp: x remove_pre_resolved_def map_of_dict_set)
qed

lemma filter_entities_keys:
  assumes "filter_entities c xs [] = Inr (es, pre')"
  shows "fst ` set pre' = {s. Str s \<in> set xs \<and> startswith s (DCID_OVERRIDE_PREFIX c)}"
proof -
  have "fst ` set pre' = dom (map_of pre')"
    by (simp add: dom_map_of_conv_image_fst)
  also have "\<dots> = {s. Str s \<in> set xs \<and> startswith s (DCID_OVERRIDE_PREFIX c)}"
    by (auto simp: dom_def filter_entities_map_of [OF assms] split: if_splits)
  finally show ?thesis .
qed

lemma filter_entities_distinct:
  "filter_entities c xs pre = Inr (es, pre') \<Longrightarrow> distinct (map fst pre) \<Longrightarrow> distinct (map fst pre')"
proof (induction xs arbitrary: pre es)
  case Nil
  then show ?case by simp
next
  case (Cons x xs)
  from filter_entities_Cons [OF Cons.prems(1)] obtain entity es1 where
    rest: "filter_entities c xs (snd (remove_pre_resolved c pre entity)) = Inr (es1, pre')"
    by blast
  have "distinct (map fst (snd (remove_pre_resolved c pre entity)))"
    using Cons.prems(2) by (simp add: remove_pre_resolved_def distinct_dict_set)
  from Cons.IH [OF rest this] show ?case .
qed

section \<open>Rewriting and dropping rows\<close>

lemma rows_replace_col0:
  "rows (replace_col0 d df) =
     map (\<lambda>(l, cs). (l, case cs of [] \<Rightarrow> [] | x # xs \<Rightarrow> series_replace d x # xs)) (rows df)"
  by (simp add: replace_col0_def)

lemma columns_replace_col0: "columns (replace_col0 d df) = columns df"
  by (simp add: replace_col0_def)

lemma replace_col0_row:
  "(l, x # cs) \<in> set (rows df) \<Longrightarrow> (l, series_replace d x # cs) \<in> set (rows (replace_col0 d df))"
  by (force simp: rows_replace_col0)


lemma in_rows_drop_rows:
  "(l, cs) \<in> set (rows (drop_rows ls df)) \<longleftrightarrow> (l, cs) \<in> set (rows df) \<and> l \<notin> set ls"
  by (auto simp: drop_rows_def)

lemma in_isin_index:
  "l \<in> set (isin_index vals df) \<longleftrightarrow> (\<exists>cs. (l, cs) \<in> set (rows df) \<and> isin (cell_at cs 0) vals)"
  by (force simp: isin_index_def)

lemma isin_Str: "isin (Str s) vals \<longleftrightarrow> s \<in> set vals"
  by (simp add: isin_def)

lemma cell_at_Cons_0: "cell_at (x # xs) 0 = x"
  by (simp add: cell_at_def)

lemma isin_Nil: "\<not> isin x []"
  by (cases x) (simp_all add: isin_def)

lemma drop_rows_nothing: "isin_index [] df = [] \<and> drop_rows [] df = df"
  by (simp add: isin_index_def isin_Nil drop_rows_def)

lemma resolve_entities_eq:
  assumes "iloc_col0 df = Inr column"
    and "filter_entities c column [] = Inr (entities, pre)"
    and "dc_resolve_entities e entities (entity_type self) = Inr dcids"
  shows "resolve_entities c e self df =
     Inr (drop_rows (isin_index (list_of_set e (set entities - set (map fst dcids)))
                      (replace_col0 pre (replace_col0 dcids df)))
            (replace_col0 pre (replace_col0 dcids df)),
          create_debug_resolve_dataframe c dcids pre
            (list_of_set e (set entities - set (map fst dcids))))"
  using assms drop_rows_nothing [of "replace_col0 pre (replace_col0 dcids df)"]
  by (simp add: resolve_entities_def Let_def)

lemma column_member:
  "iloc_col0 df = Inr column \<Longrightarrow> (l, x # cs) \<in> set (rows df) \<Longrightarrow> x \<in> set column"
  by (force simp: iloc_col0_def cell_at_Cons_0 split: if_splits)


lemma audit_rows_aux:
  "map g (zip (u @ map fst kv)
            (zip (replicate (length u) s @ map snd kv)
                 (map f (replicate (length u) s @ map snd kv)))) =
   map (\<lambda>name. g (name, s, f s)) u @ map (\<lambda>(name, dcid). g (name, dcid, f dcid)) kv"
proof (induction u)
  case Nil
  show ?case by (induction kv) auto
next
  case (Cons a u)
  then show ?case by simp
qed

lemma rows_create_debug_resolve_dataframe:
  "map snd (rows (create_debug_resolve_dataframe c resolved pre_resolved unresolved)) =
     map (\<lambda>name. [Str name, Str (DEBUG_UNRESOLVED_DCID c), Str []]) unresolved @
     map (\<lambda>(name, dcid). [Str name, Str dcid, Str (browser_link c dcid)]) (pre_resolved @ resolved)"
proof -
  have "map snd (rows (create_debug_resolve_dataframe c resolved pre_resolved unresolved)) =
     map (\<lambda>(name, dcid, link). [Str name, Str dcid, Str link])
       (zip (unresolved @ map fst (pre_resolved @ resolved))
          (zip (replicate (length unresolved) (DEBUG_UNRESOLVED_DCID c) @ map snd (pre_resolved @ resolved))
             (map (browser_link c)
                (replicate (length unresolved) (DEBUG_UNRESOLVED_DCID c) @ map snd (pre_resolved @ resolved)))))"
    by (simp add: create_debug_resolve_dataframe_def Let_def)
  also have "\<dots> = map (\<lambda>name. [Str name, Str (DEBUG_UNRESOLVED_DCID c), Str (browser_link c (DEBUG_UNRESOLVED_DCID c))]) unresolved @
     map (\<lambda>(name, dcid). [Str name, Str dcid, Str (browser_link c dcid)]) (pre_resolved @ resolved)"
    by (simp only: audit_rows_aux split_conv)
  finally show ?thesis by (simp add: browser_link_def)
qed

section \<open>The entity column through the later stages\<close>

lemma reindex_row_head:
  "cell_at (reindex_row (d # old) (d # new) cs) 0 = cell_at cs 0"
  by (simp add: reindex_row_def cell_at_def)

lemma cell_at_append_0: "xs \<noteq> [] \<Longrightarrow> cell_at (xs @ ys) 0 = cell_at xs 0"
  by (cases xs) (simp_all add: cell_at_def)

lemma reshape_entity_column:
  assumes cols: "columns df = COLUMN_DCID c # rest"
    and unp: "unpivot_variables c df = Inr long"
    and row: "(l, cs) \<in> set (rows (reorder_columns c long))"
  shows "\<exists>l' cs'. (l', cs') \<in> set (rows df) \<and> cell_at cs 0 = cell_at cs' 0"
proof -
  let ?D = "COLUMN_DCID c" and ?T = "COLUMN_DATE c"
  let ?V = "COLUMN_VARIABLE c" and ?X = "COLUMN_VALUE c"
  let ?vv = "filter (\<lambda>(j, name). name \<notin> set [?D, ?T]) (enumerate 0 (columns df))"
  let ?L = "concat (map (\<lambda>(j, name).
                       map (\<lambda>(l, cs). reindex_row (columns df) [?D, ?T] cs @ [Str name, cell_at cs j])
                         (rows df)) ?vv)"
  from unp have long: "long = dropna \<lparr>columns = [?D, ?T, ?V, ?X], rows = enumerate 0 ?L\<rparr>"
    by (auto simp: unpivot_variables_def melt_def Let_def split: if_splits sum.splits)
  from row obtain cs1 where cs: "cs = reindex_row [?D, ?T, ?V, ?X] [?D, ?V, ?T, ?X] cs1"
    and in1: "(l, cs1) \<in> set (enumerate 0 ?L)"
    by (auto simp: reorder_columns_def reindex_columns_def long dropna_def)
  from in1 have "cs1 \<in> set ?L"
    unfolding enumerate_eq_zip by (rule in_set_zipE)
  then obtain l' cs' j name where src: "(l', cs') \<in> set (rows df)"
    and cs1: "cs1 = reindex_row (columns df) [?D, ?T] cs' @ [Str name, cell_at cs' j]"
    by auto
  have "cell_at cs 0 = cell_at cs1 0"
    unfolding cs by (rule reindex_row_head)
  also have "\<dots> = cell_at (reindex_row (columns df) [?D, ?T] cs') 0"
    unfolding cs1 by (rule cell_at_append_0) (simp add: reindex_row_def)
  also have "\<dots> = cell_at cs' 0"
    unfolding cols by (rule reindex_row_head)
  finally show ?thesis
    using src by blast
qed

lemma rename_columns_head:
  "rename_columns c df = Inr df' \<Longrightarrow> \<exists>rest. columns df' = COLUMN_DCID c # rest"
  by (cases "columns df"; cases "tl (columns df)")
     (auto simp: rename_columns_def set_column_label_def split: if_splits sum.splits)


lemma columns_resolve_entities:
  assumes "iloc_col0 df = Inr column"
    and "filter_entities c column [] = Inr (entities, pre)"
    and "dc_resolve_entities e entities (entity_type self) = Inr dcids"
    and "resolve_entities c e self df = Inr (df', dbg)"
  shows "columns df' = columns df"
  using resolve_entities_eq [OF assms(1-3)] assms(4)
  by (auto simp: drop_rows_def columns_replace_col0)

section \<open>The scenario of the spec, stage by stage\<close>

lemma scenario_column:
  "iloc_col0 scenario_frame = Inr [Str ''e1'', Str ''e2'', Str ''dcid:X'']"
  by code_simp

lemma scenario_entities:
  "filter_entities example_constants [Str ''e1'', Str ''e2'', Str ''dcid:X''] [] =
     Inr ([''e1'', ''e2''], [(''dcid:X'', ''X'')])"
  by code_simp

lemma scenario_resolved:
  "dc_resolve_entities scenario_env [''e1'', ''e2''] (entity_type example_importer) =
     Inr [(''e1'', ''E1'')]"
  by code_simp

lemma scenario_resolve_entities:
  "resolve_entities example_constants scenario_env example_importer scenario_frame =
     Inr (\<lparr>columns = [''name'', ''val''],
            rows = [(0, [Str ''E1'', Num 10]), (2, [Str ''X'', Num 30])]\<rparr>,
          \<lparr>columns = [''name'', ''dcid'', ''link''],
            rows = [(0, [Str ''e2'', Str ''UNRESOLVED'', Str []]),
                    (1, [Str ''dcid:X'', Str ''X'', Str ''https://datacommons.org/browser/X'']),
                    (2, [Str ''e1'', Str ''E1'', Str ''https://datacommons.org/browser/E1''])]\<rparr>)"
  by code_simp

lemma scenario_order:
  "set (list_of_set scenario_env (set [''e1'', ''e2''] - set (map fst [(''e1'', ''E1'')]))) =
     set [''e1'', ''e2''] - set (map fst [(''e1'', ''E1'')]) \<and>
   distinct (list_of_set scenario_env (set [''e1'', ''e2''] - set (map fst [(''e1'', ''E1'')])))"
  by code_simp


section \<open>Claims on the entity resolver\<close>

text \<open>
  In the theorems of this section \<open>column\<close>, \<open>entities\<close>, \<open>pre_resolved_entities\<close> and
  \<open>dcids\<close> are the variables of \<^verbatim>\<open>_resolve_entities\<close> with these names: the first column of
  the table, the names sent to the resolver, the dictionary of override references, and the
  mapping the resolver returned. \<open>df'\<close> is the table after the stage. A row is identified by
  its index label \<open>l\<close>; the cells after the first one are \<open>cs\<close>.
\<close>




lemma unresolved_absent_after_resolve:
  assumes col: "iloc_col0 df = Inr column"
    and ents: "filter_entities c column [] = Inr (entities, pre_resolved_entities)"
    and res: "dc_resolve_entities e entities (entity_type self) = Inr dcids"
    and out: "resolve_entities c e self df = Inr (df', debug_resolve_df)"
    and order: "set (list_of_set e (set entities - set (map fst dcids))) =
                  set entities - set (map fst dcids)"
    and name: "(l, Str name # cs) \<in> set (rows df)"
    and plain: "\<not> startswith name (DCID_OVERRIDE_PREFIX c)"
    and absent: "map_of dcids name = None"
    and row: "(l', cs') \<in> set (rows df')"
  shows "cell_at cs' 0 \<noteq> Str name"
proof
  let ?ul = "list_of_set e (set entities - set (map fst dcids))"
  let ?df2 = "replace_col0 pre_resolved_entities (replace_col0 dcids df)"
  assume eq: "cell_at cs' 0 = Str name"
  have df': "df' = drop_rows (isin_index ?ul ?df2) ?df2"
    using resolve_entities_eq [OF col ents res] out by simp
  have "Str name \<in> set column"
    using column_member [OF col name] .
  then have "name \<in> set entities"
    using plain by (simp add: filter_entities_set [OF ents])
  moreover have "name \<notin> set (map fst dcids)"
    using absent by (simp add: map_of_eq_None_iff)
  ultimately have u: "name \<in> set ?ul"
    using order by simp
  from row have "(l', cs') \<in> set (rows ?df2)" and "l' \<notin> set (isin_index ?ul ?df2)"
    by (simp_all add: df' in_rows_drop_rows)
  moreover have "isin (cell_at cs' 0) ?ul"
    using u eq by (simp add: isin_Str)
  ultimately show False
    by (auto simp: in_isin_index)
qed

text \<open>
  Claim C2. A name of the entity column that has no override prefix and is absent from the
  resolver's mapping is not in the entity column of the output table, with or without
  reshaping: no row holding it remains. Here \<open>df0\<close> is the table read, \<open>df\<close> the table that
  reaches the resolver, and \<open>df'\<close> the final table.
\<close>

theorem unresolved_rows_dropped:
  assumes drop: "drop_ignored_columns self df0 = Inr dfa"
    and rename: "rename_columns c dfa = Inr df"
    and col: "iloc_col0 df = Inr column"
    and ents: "filter_entities c column [] = Inr (entities, pre_resolved_entities)"
    and res: "dc_resolve_entities e entities (entity_type self) = Inr dcids"
    and order: "set (list_of_set e (set entities - set (map fst dcids))) =
                  set entities - set (map fst dcids)"
    and out: "transform c e self df0 = Inr (df', debug_resolve_df)"
    and name: "(l, Str name # cs) \<in> set (rows df)"
    and plain: "\<not> startswith name (DCID_OVERRIDE_PREFIX c)"
    and absent: "map_of dcids name = None"
  shows "\<exists>column'. iloc_col0 df' = Inr column' \<and> Str name \<notin> set column'"
proof -
  obtain df3 dbg where r: "resolve_entities c e self df = Inr (df3, dbg)"
    using resolve_entities_eq [OF col ents res] by blast
  note gone = unresolved_absent_after_resolve [OF col ents res r order name plain absent]
  have cols3: "columns df3 = columns df"
    using columns_resolve_entities [OF col ents res r] .
  obtain rest where head: "columns df = COLUMN_DCID c # rest"
    using rename_columns_head [OF rename] by blast
  have t: "(if UNPIVOT_VARIABLES c
            then (case unpivot_variables c df3 of
                    Inl err \<Rightarrow> Inl err
                  | Inr df4 \<Rightarrow> Inr (reorder_columns c df4, dbg))
            else Inr (df3, dbg)) = Inr (df', debug_resolve_df)"
    using out by (simp add: transform_def drop rename r)
  have cols': "columns df' \<noteq> []"
  proof (cases "UNPIVOT_VARIABLES c")
    case True
    with t obtain long where "df' = reorder_columns c long"
      by (auto split: sum.splits)
    then show ?thesis by (simp add: reorder_columns_def reindex_columns_def)
  next
    case False
    with t have "df' = df3" by simp
    with cols3 head show ?thesis by simp
  qed
  have gone': "cell_at cs' 0 \<noteq> Str name" if row: "(l', cs') \<in> set (rows df')" for l' cs'
  proof (cases "UNPIVOT_VARIABLES c")
    case True
    with t obtain long where unp: "unpivot_variables c df3 = Inr long"
      and d: "df' = reorder_columns c long"
      by (auto split: sum.splits)
    have head3: "columns df3 = COLUMN_DCID c # rest"
      using cols3 head by simp
    from reshape_entity_column [OF head3 unp] row d
    obtain l3 cs3 where "(l3, cs3) \<in> set (rows df3)" and "cell_at cs' 0 = cell_at cs3 0"
      by blast
    with gone show ?thesis by simp
  next
    case False
    with t have "df' = df3" by simp
    with gone row show ?thesis by simp
  qed
  have "iloc_col0 df' = Inr (map (\<lambda>(l, cs). cell_at cs 0) (rows df'))"
    using cols' by (simp add: iloc_col0_def)
  moreover have "Str name \<notin> set (map (\<lambda>(l, cs). cell_at cs 0) (rows df'))"
    using gone' by force
  ultimately show ?thesis by blast
qed

theorem unresolved_rows_dropped_witness:
  "case transform reshape_constants
          (example_env reshape_scenario_frame [(''e1'', ''E1'')] [''e1'', ''e2''])
          example_importer reshape_scenario_frame of
     Inl err \<Rightarrow> False
   | Inr (df', debug_resolve_df) \<Rightarrow>
       (case iloc_col0 df' of Inl err \<Rightarrow> False | Inr column' \<Rightarrow> Str ''e2'' \<notin> set column')"
proof -
  let ?e = "example_env reshape_scenario_frame [(''e1'', ''E1'')] [''e1'', ''e2'']"
  let ?df = "\<lparr>columns = [''dcid'', ''date'', ''v1''],
      rows = [(0, [Str ''e1'', Str ''2020'', Num 10]), (1, [Str ''e2'', Str ''2020'', Num 20]),
              (2, [Str ''dcid:X'', Str ''2021'', Num 30])]\<rparr>"
  have drop: "drop_ignored_columns example_importer reshape_scenario_frame =
      Inr reshape_scenario_frame"
    by code_simp
  have rename: "rename_columns reshape_constants reshape_scenario_frame = Inr ?df"
    by code_simp
  have col: "iloc_col0 ?df = Inr [Str ''e1'', Str ''e2'', Str ''dcid:X'']"
    by code_simp
  have ents: "filter_entities reshape_constants [Str ''e1'', Str ''e2'', Str ''dcid:X''] [] =
     Inr ([''e1'', ''e2''], [(''dcid:X'', ''X'')])"
    by code_simp
  have res: "dc_resolve_entities ?e [''e1'', ''e2''] (entity_type example_importer) =
     Inr [(''e1'', ''E1'')]"
    by code_simp
  have order: "set (list_of_set ?e (set [''e1'', ''e2''] - set (map fst [(''e1'', ''E1'')]))) =
     set [''e1'', ''e2''] - set (map fst [(''e1'', ''E1'')])"
    by code_simp
  have out: "transform reshape_constants ?e example_importer reshape_scenario_frame =
      Inr (\<lparr>columns = [''dcid'', ''variable'', ''date'', ''value''],
             rows = [(0, [Str ''E1'', Str ''v1'', Str ''2020'', Num 10]),
                     (1, [Str ''X'', Str ''v1'', Str ''2021'', Num 30])]\<rparr>,
           \<lparr>columns = [''name'', ''dcid'', ''link''],
             rows = [(0, [Str ''e2'', Str ''UNRESOLVED'', Str []]),
                     (1, [Str ''dcid:X'', Str ''X'', Str ''https://datacommons.org/browser/X'']),
                     (2, [Str ''e1'', Str ''E1'', Str ''https://datacommons.org/browser/E1''])]\<rparr>)"
    by code_simp
  have name: "(1, Str ''e2'' # [Str ''2020'', Num 20]) \<in> set (rows ?df)"
    by simp
  have plain: "\<not> startswith ''e2'' (DCID_OVERRIDE_PREFIX reshape_constants)"
    by code_simp
  have absent: "map_of [(''e1'', ''E1'')] ''e2'' = None"
    by simp
  from unresolved_rows_dropped [OF drop rename col ents res order out name plain absent]
  show ?thesis
    unfolding out by auto
qed



text \<open>
  Claim C9. Rows are dropped after both rewritings: a row whose reference the resolver's
  mapping, or its override prefix, turns into an identifier that equals an unresolved name is
  dropped from the output table, with every row that has its index label.
\<close>

theorem rewritten_to_unresolved_dropped:
  assumes col: "iloc_col0 df = Inr column"
    and ents: "filter_entities c column [] = Inr (entities, pre_resolved_entities)"
    and res: "dc_resolve_entities e entities (entity_type self) = Inr dcids"
    and out: "resolve_entities c e self df = Inr (df', debug_resolve_df)"
    and order: "set (list_of_set e (set entities - set (map fst dcids))) =
                  set entities - set (map fst dcids)"
    and row: "(l, Str ref # cs) \<in> set (rows df)"
    and rewritten:
      "map_of dcids ref = Some dcid \<or>
       (startswith ref (DCID_OVERRIDE_PREFIX c) \<and> map_of dcids ref = None \<and>
        dcid = strip (drop (length (DCID_OVERRIDE_PREFIX c)) ref))"
    and clash: "dcid \<in> set entities - set (map fst dcids)"
  shows "l \<notin> fst ` set (rows df')"
proof -
  let ?ul = "list_of_set e (set entities - set (map fst dcids))"
  let ?df1 = "replace_col0 dcids df"
  let ?df2 = "replace_col0 pre_resolved_entities ?df1"
  have df': "df' = drop_rows (isin_index ?ul ?df2) ?df2"
    using resolve_entities_eq [OF col ents res] out by simp
  have "\<not> startswith dcid (DCID_OVERRIDE_PREFIX c)"
    using clash by (simp add: filter_entities_set [OF ents])
  then have plain: "map_of pre_resolved_entities dcid = None"
    by (simp add: filter_entities_map_of [OF ents])
  have incol: "Str ref \<in> set column"
    using column_member [OF col row] .
  have in2: "(l, Str dcid # cs) \<in> set (rows ?df2)"
    using rewritten
  proof
    assume m: "map_of dcids ref = Some dcid"
    have "(l, Str dcid # cs) \<in> set (rows ?df1)"
      using replace_col0_row [OF row, of dcids] m by (simp add: series_replace_def)
    from replace_col0_row [OF this, of pre_resolved_entities] plain
    show ?thesis by (simp add: series_replace_def)
  next
    assume p: "startswith ref (DCID_OVERRIDE_PREFIX c) \<and> map_of dcids ref = None \<and>
        dcid = strip (drop (length (DCID_OVERRIDE_PREFIX c)) ref)"
    have "(l, Str ref # cs) \<in> set (rows ?df1)"
      using replace_col0_row [OF row, of dcids] p by (simp add: series_replace_def)
    from replace_col0_row [OF this, of pre_resolved_entities]
    show ?thesis
      using p incol by (simp add: series_replace_def filter_entities_map_of [OF ents])
  qed
  have "isin (cell_at (Str dcid # cs) 0) ?ul"
    using clash order by (simp add: cell_at_Cons_0 isin_Str)
  with in2 have "l \<in> set (isin_index ?ul ?df2)"
    by (auto simp: in_isin_index)
  then show ?thesis
    by (auto simp: df' in_rows_drop_rows)
qed

lemma clash_column: "iloc_col0 clash_frame = Inr [Str ''e1'', Str ''e2'']"
  by code_simp

lemma clash_entities:
  "filter_entities example_constants [Str ''e1'', Str ''e2''] [] = Inr ([''e1'', ''e2''], [])"
  by code_simp

lemma clash_resolved:
  "dc_resolve_entities (example_env clash_frame [(''e1'', ''e2'')] [''e2''])
     [''e1'', ''e2''] (entity_type example_importer) = Inr [(''e1'', ''e2'')]"
  by code_simp

lemma clash_resolve_entities:
  "resolve_entities example_constants (example_env clash_frame [(''e1'', ''e2'')] [''e2''])
     example_importer clash_frame =
     Inr (\<lparr>columns = [''name'', ''val''], rows = []\<rparr>,
          \<lparr>columns = [''name'', ''dcid'', ''link''],
            rows = [(0, [Str ''e2'', Str ''UNRESOLVED'', Str []]),
                    (1, [Str ''e1'', Str ''e2'', Str ''https://datacommons.org/browser/e2''])]\<rparr>)"
  by code_simp

theorem rewritten_to_unresolved_dropped_witness:
  "case resolve_entities example_constants (example_env clash_frame [(''e1'', ''e2'')] [''e2''])
          example_importer clash_frame of
     Inl err \<Rightarrow> False
   | Inr (df', debug_resolve_df) \<Rightarrow> 0 \<notin> fst ` set (rows df')"
proof -
  have order: "set (list_of_set (example_env clash_frame [(''e1'', ''e2'')] [''e2''])
                  (set [''e1'', ''e2''] - set (map fst [(''e1'', ''e2'')]))) =
               set [''e1'', ''e2''] - set (map fst [(''e1'', ''e2'')])"
    by code_simp
  have row: "(0, Str ''e1'' # [Num 10]) \<in> set (rows clash_frame)"
    by code_simp
  have rewritten: "map_of [(''e1'', ''e2'')] ''e1'' = Some ''e2'' \<or>
       (startswith ''e1'' (DCID_OVERRIDE_PREFIX example_constants) \<and>
        map_of [(''e1'', ''e2'')] ''e1'' = None \<and>
        ''e2'' = strip (drop (length (DCID_OVERRIDE_PREFIX example_constants)) ''e1''))"
    by simp
  have clash: "''e2'' \<in> set [''e1'', ''e2''] - set (map fst [(''e1'', ''e2'')])"
    by simp
  from rewritten_to_unresolved_dropped [OF clash_column clash_entities clash_resolved
      clash_resolve_entities order row rewritten clash]
  show ?thesis
    by (simp add: clash_resolve_entities)
qed

text \<open>
  Claim C4, as amended. The audit table lists the unresolved names first (marker, empty link),
  then the override references, then the names of the resolver's mapping, and has as many
  rows as there are distinct unresolved names, distinct override references and distinct
  resolved names together. A row of the last two groups carries the link made of the browser
  address, a slash and its identifier, unless its identifier equals the marker of unresolved
  names: then its link is empty. (As stated, for every row outside the unresolved group, the
  claim fails for an override reference that spells the marker.)
\<close>

theorem audit_table_layout:
  assumes col: "iloc_col0 df = Inr column"
    and ents: "filter_entities c column [] = Inr (entities, pre_resolved_entities)"
    and res: "dc_resolve_entities e entities (entity_type self) = Inr dcids"
    and out: "resolve_entities c e self df = Inr (df', debug_resolve_df)"
    and keys: "distinct (map fst dcids)"
    and order: "set (list_of_set e (set entities - set (map fst dcids))) =
                  set entities - set (map fst dcids) \<and>
                distinct (list_of_set e (set entities - set (map fst dcids)))"
  shows "map snd (rows debug_resolve_df) =
           map (\<lambda>name. [Str name, Str (DEBUG_UNRESOLVED_DCID c), Str []])
             (list_of_set e (set entities - set (map fst dcids))) @
           map (\<lambda>(name, dcid).
                  [Str name, Str dcid,
                   Str (if dcid = DEBUG_UNRESOLVED_DCID c then [] else DC_BROWSER c @ ''/'' @ dcid)])
             (pre_resolved_entities @ dcids) \<and>
         length (rows debug_resolve_df) =
           card (set entities - set (map fst dcids)) +
           card {ref. Str ref \<in> set column \<and> startswith ref (DCID_OVERRIDE_PREFIX c)} +
           card (fst ` set dcids) \<and>
         length pre_resolved_entities =
           card {ref. Str ref \<in> set column \<and> startswith ref (DCID_OVERRIDE_PREFIX c)} \<and>
         length dcids = card (fst ` set dcids)"
proof -
  let ?ul = "list_of_set e (set entities - set (map fst dcids))"
  have dbg: "debug_resolve_df = create_debug_resolve_dataframe c dcids pre_resolved_entities ?ul"
    using resolve_entities_eq [OF col ents res] out by simp
  have layout: "map snd (rows debug_resolve_df) =
           map (\<lambda>name. [Str name, Str (DEBUG_UNRESOLVED_DCID c), Str []]) ?ul @
           map (\<lambda>(name, dcid).
                  [Str name, Str dcid,
                   Str (if dcid = DEBUG_UNRESOLVED_DCID c then [] else DC_BROWSER c @ ''/'' @ dcid)])
             (pre_resolved_entities @ dcids)"
    unfolding dbg rows_create_debug_resolve_dataframe browser_link_def ..
  have n1: "length ?ul = card (set entities - set (map fst dcids))"
    using order distinct_card [of ?ul] by simp
  have "distinct (map fst pre_resolved_entities)"
    using filter_entities_distinct [OF ents] by simp
  then have "length pre_resolved_entities = card (fst ` set pre_resolved_entities)"
    using distinct_card [of "map fst pre_resolved_entities"] by simp
  then have n2: "length pre_resolved_entities =
      card {ref. Str ref \<in> set column \<and> startswith ref (DCID_OVERRIDE_PREFIX c)}"
    by (simp add: filter_entities_keys [OF ents])
  have n3: "length dcids = card (fst ` set dcids)"
    using keys distinct_card [of "map fst dcids"] by simp
  have "length (rows debug_resolve_df) = length (map snd (rows debug_resolve_df))"
    by simp
  also have "\<dots> = length ?ul + length pre_resolved_entities + length dcids"
    unfolding layout by simp
  finally have count: "length (rows debug_resolve_df) =
           card (set entities - set (map fst dcids)) +
           card {ref. Str ref \<in> set column \<and> startswith ref (DCID_OVERRIDE_PREFIX c)} +
           card (fst ` set dcids)"
    using n1 n2 n3 by simp
  from layout count n2 n3 show ?thesis by blast
qed

theorem audit_table_layout_witness:
  "case resolve_entities example_constants scenario_env example_importer scenario_frame of
     Inl err \<Rightarrow> False
   | Inr (df', debug_resolve_df) \<Rightarrow>
       map snd (rows debug_resolve_df) =
         [[Str ''e2'', Str ''UNRESOLVED'', Str []],
          [Str ''dcid:X'', Str ''X'', Str ''https://datacommons.org/browser/X''],
          [Str ''e1'', Str ''E1'', Str ''https://datacommons.org/browser/E1'']] \<and>
       length (rows debug_resolve_df) = 1 + 1 + 1"
proof -
  let ?U = "set [''e1'', ''e2''] - set (map fst [(''e1'', ''E1'')])"
  let ?P = "{ref. Str ref \<in> set [Str ''e1'', Str ''e2'', Str ''dcid:X''] \<and>
                  startswith ref (DCID_OVERRIDE_PREFIX example_constants)}"
  let ?K = "fst ` set [(''e1'', ''E1'')]"
  have keys: "distinct (map fst [(''e1'', ''E1'')])"
    by simp
  have u: "list_of_set scenario_env ?U = [''e2'']"
    by code_simp
  have n1: "card ?U = 1"
    using scenario_order distinct_card [of "[''e2'']"] by (simp only: u) simp
  note layout = audit_table_layout [OF scenario_column scenario_entities scenario_resolved
      scenario_resolve_entities keys scenario_order]
  have n2: "card ?P = 1" and n3: "card ?K = 1"
    using layout by simp_all
  have "map snd (rows
          \<lparr>columns = [''name'', ''dcid'', ''link''],
            rows = [(0, [Str ''e2'', Str ''UNRESOLVED'', Str []]),
                    (1, [Str ''dcid:X'', Str ''X'', Str ''https://datacommons.org/browser/X'']),
                    (2, [Str ''e1'', Str ''E1'', Str ''https://datacommons.org/browser/E1''])]\<rparr>) =
         [[Str ''e2'', Str ''UNRESOLVED'', Str []],
          [Str ''dcid:X'', Str ''X'', Str ''https://datacommons.org/browser/X''],
          [Str ''e1'', Str ''E1'', Str ''https://datacommons.org/browser/E1'']]"
    by simp
  moreover have "length (rows
          \<lparr>columns = [''name'', ''dcid'', ''link''],
            rows = [(0, [Str ''e2'', Str ''UNRESOLVED'', Str []]),
                    (1, [Str ''dcid:X'', Str ''X'', Str ''https://datacommons.org/browser/X'']),
                    (2, [Str ''e1'', Str ''E1'', Str ''https://datacommons.org/browser/E1''])]\<rparr>) =
         1 + 1 + 1"
    using layout unfolding n1 n2 n3 by blast
  ultimately show ?thesis
    by (simp add: scenario_resolve_entities)
qed

theorem audit_table_layout_counterexample:
  "resolve_entities example_constants (example_env marker_frame [] []) example_importer
     marker_frame =
     Inr (\<lparr>columns = [''name'', ''val''], rows = [(0, [Str ''UNRESOLVED'', Num 10])]\<rparr>,
          \<lparr>columns = [''name'', ''dcid'', ''link''],
            rows = [(0, [Str ''dcid:UNRESOLVED'', Str ''UNRESOLVED'', Str []])]\<rparr>) \<and>
   filter_entities example_constants [Str ''dcid:UNRESOLVED''] [] =
     Inr ([], [(''dcid:UNRESOLVED'', ''UNRESOLVED'')]) \<and>
   [] \<noteq> DC_BROWSER example_constants @ ''/'' @ ''UNRESOLVED''"
  by code_simp

section \<open>Claims on the column normalizer and the run\<close>

lemma keep_cells_zip:
  "zip (filter keep names) (keep_cells keep names xs) =
     filter (\<lambda>(name, x). keep name) (zip names xs)"
  by (induction keep names xs rule: keep_cells.induct) auto

lemma do_import_transform_error:
  "init e self = Inr () \<Longrightarrow> read_csvs e self = Inr df0 \<Longrightarrow> transform c e self df0 = Inl err \<Longrightarrow>
     do_import c e self w = (Inl err, w)"
  by (simp add: do_import_def)

lemma singleton_list: "set xs = {a} \<Longrightarrow> distinct xs \<Longrightarrow> xs = [a]"
  by (cases xs) (auto simp: subset_singleton_iff)

text \<open>
  Claim C7. When some name of \<^verbatim>\<open>ignore_columns\<close> is not a column of the table, dropping the
  ignored columns raises KeyError, and a run that read this table ends with this error and
  has written no file. When all the names are columns, the columns with these names go and
  nothing else changes: the labels of the other columns stay in order, the rows keep their
  index labels, and in every row the cells under the other columns are the same.
\<close>

theorem drop_ignored_columns_contract:
  "((\<exists>name \<in> set (ignore_columns self). name \<notin> set (columns df)) \<longrightarrow>
      drop_ignored_columns self df = Inl KeyError \<and>
      (init e self = Inr () \<and> read_csvs e self = Inr df \<longrightarrow>
         do_import c e self w = (Inl KeyError, w))) \<and>
   (set (ignore_columns self) \<subseteq> set (columns df) \<longrightarrow>
      (\<exists>df'. drop_ignored_columns self df = Inr df' \<and>
         columns df' = filter (\<lambda>name. name \<notin> set (ignore_columns self)) (columns df) \<and>
         map fst (rows df') = map fst (rows df) \<and>
         (\<forall>i < length (rows df).
            zip (columns df') (snd (rows df' ! i)) =
              filter (\<lambda>(name, x). name \<notin> set (ignore_columns self))
                (zip (columns df) (snd (rows df ! i))))))"
proof (intro conjI impI)
  assume missing: "\<exists>name \<in> set (ignore_columns self). name \<notin> set (columns df)"
  then have "ignore_columns self \<noteq> []" by auto
  with missing show fails: "drop_ignored_columns self df = Inl KeyError"
    by (simp add: drop_ignored_columns_def drop_columns_def)
  assume "init e self = Inr () \<and> read_csvs e self = Inr df"
  moreover from fails have "transform c e self df = Inl KeyError"
    by (simp add: transform_def)
  ultimately show "do_import c e self w = (Inl KeyError, w)"
    by (simp add: do_import_transform_error)
next
  let ?keep = "\<lambda>name. name \<notin> set (ignore_columns self)"
  let ?df' = "\<lparr>columns = filter ?keep (columns df),
               rows = map (\<lambda>(l, cs). (l, keep_cells ?keep (columns df) cs)) (rows df)\<rparr>"
  assume present: "set (ignore_columns self) \<subseteq> set (columns df)"
  show "\<exists>df'. drop_ignored_columns self df = Inr df' \<and>
         columns df' = filter ?keep (columns df) \<and>
         map fst (rows df') = map fst (rows df) \<and>
         (\<forall>i < length (rows df).
            zip (columns df') (snd (rows df' ! i)) =
              filter (\<lambda>(name, x). ?keep name) (zip (columns df) (snd (rows df ! i))))"
  proof (cases "ignore_columns self = []")
    case True
    then show ?thesis
      by (simp add: drop_ignored_columns_def)
  next
    case False
    with present have "drop_ignored_columns self df = Inr ?df'"
      by (auto simp: drop_ignored_columns_def drop_columns_def)
    moreover have "map fst (rows ?df') = map fst (rows df)"
      by (simp add: case_prod_unfold comp_def)
    moreover have "\<forall>i < length (rows df).
            zip (columns ?df') (snd (rows ?df' ! i)) =
              filter (\<lambda>(name, x). ?keep name) (zip (columns df) (snd (rows df ! i)))"
      by (simp add: case_prod_unfold keep_cells_zip)
    ultimately show ?thesis
      by (intro exI [of _ ?df']) simp
  qed
qed

theorem drop_ignored_columns_contract_witness:
  "do_import example_constants scenario_env (example_importer\<lparr>ignore_columns := [''missing'']\<rparr>)
     Map.empty = (Inl KeyError, Map.empty) \<and>
   (case drop_ignored_columns (example_importer\<lparr>ignore_columns := [''val'']\<rparr>) scenario_frame of
      Inl err \<Rightarrow> False
    | Inr df' \<Rightarrow> columns df' = [''name''] \<and> map fst (rows df') = [0, 1, 2] \<and>
        zip (columns df') (snd (rows df' ! 2)) = [(''name'', Str ''dcid:X'')])"
proof -
  let ?bad = "example_importer\<lparr>ignore_columns := [''missing'']\<rparr>"
  let ?good = "example_importer\<lparr>ignore_columns := [''val'']\<rparr>"
  have missing: "\<exists>name \<in> set (ignore_columns ?bad). name \<notin> set (columns scenario_frame)"
    by code_simp
  have run: "init scenario_env ?bad = Inr () \<and> read_csvs scenario_env ?bad = Inr scenario_frame"
    by code_simp
  have present: "set (ignore_columns ?good) \<subseteq> set (columns scenario_frame)"
    by code_simp
  have third: "2 < length (rows scenario_frame)"
    by code_simp
  note contract = drop_ignored_columns_contract [of ?bad scenario_frame scenario_env example_constants Map.empty]
  from contract missing run
  have first: "do_import example_constants scenario_env ?bad Map.empty = (Inl KeyError, Map.empty)"
    by blast
  from drop_ignored_columns_contract [of ?good scenario_frame] present
  obtain df' where ok: "drop_ignored_columns ?good scenario_frame = Inr df'"
    and cols: "columns df' = filter (\<lambda>name. name \<notin> set (ignore_columns ?good)) (columns scenario_frame)"
    and labels: "map fst (rows df') = map fst (rows scenario_frame)"
    and cells: "\<forall>i < length (rows scenario_frame).
            zip (columns df') (snd (rows df' ! i)) =
              filter (\<lambda>(name, x). name \<notin> set (ignore_columns ?good))
                (zip (columns scenario_frame) (snd (rows scenario_frame ! i)))"
    by blast
  have c1: "columns df' = [''name'']"
    unfolding cols by code_simp
  have c2: "map fst (rows df') = [0, 1, 2]"
    unfolding labels by code_simp
  have "zip (columns df') (snd (rows df' ! 2)) =
      filter (\<lambda>(name, x). name \<notin> set (ignore_columns ?good))
        (zip (columns scenario_frame) (snd (rows scenario_frame ! 2)))"
    using cells third by blast
  also have "\<dots> = [(''name'', Str ''dcid:X'')]"
    by code_simp
  finally have c3: "zip (columns df') (snd (rows df' ! 2)) = [(''name'', Str ''dcid:X'')]" .
  from first ok c1 c2 c3 show ?thesis by simp
qed

text \<open>
  Claim C8, as amended. A run ends in one of three ways: it completes, and has written the
  final table to the observations file and the audit table to the debug-resolve file; or it
  aborts and has written nothing; or it aborts with the observations file written, which
  happens when that file was writable and the debug-resolve file is not. (As stated, with
  nothing written by a run that aborts, the claim fails: the two files are written one
  after the other.)
\<close>

theorem outputs_all_or_nothing_but_second_write:
  "(\<exists>df0 df debug_resolve_df.
      read_csvs e self = Inr df0 \<and> transform c e self df0 = Inr (df, debug_resolve_df) \<and>
      do_import c e self w =
        (Inr (), w(observations_file c self \<mapsto> csv_of df,
                   debug_resolve_file c self \<mapsto> csv_of debug_resolve_df))) \<or>
   (\<exists>err. do_import c e self w = (Inl err, w)) \<or>
   (\<exists>df0 df debug_resolve_df.
      read_csvs e self = Inr df0 \<and> transform c e self df0 = Inr (df, debug_resolve_df) \<and>
      writable e (observations_file c self) \<and> \<not> writable e (debug_resolve_file c self) \<and>
      do_import c e self w = (Inl OSError, w(observations_file c self \<mapsto> csv_of df)))"
  by (auto simp: do_import_def write_csvs_def to_csv_def split: sum.splits prod.splits)

theorem outputs_all_or_nothing_witness:
  "\<exists>df0 df debug_resolve_df.
      read_csvs scenario_env example_importer = Inr df0 \<and>
      transform example_constants scenario_env example_importer df0 = Inr (df, debug_resolve_df) \<and>
      do_import example_constants scenario_env example_importer Map.empty =
        (Inr (), [observations_file example_constants example_importer \<mapsto> csv_of df,
                  debug_resolve_file example_constants example_importer \<mapsto> csv_of debug_resolve_df])"
proof -
  have completes: "fst (do_import example_constants scenario_env example_importer Map.empty) = Inr ()"
    by code_simp
  from outputs_all_or_nothing_but_second_write
    [of scenario_env example_importer example_constants Map.empty] completes
  show ?thesis by auto
qed

theorem outputs_all_or_nothing_counterexample:
  "fst (do_import example_constants
         (scenario_env\<lparr>writable := (\<lambda>path. path = ''out/observations.csv'')\<rparr>)
         example_importer Map.empty) = Inl OSError \<and>
   snd (do_import example_constants
         (scenario_env\<lparr>writable := (\<lambda>path. path = ''out/observations.csv'')\<rparr>)
         example_importer Map.empty) ''out/observations.csv'' =
     Some ([''dcid'', ''val''], [[Str ''E1'', Num 10], [Str ''X'', Num 30]]) \<and>
   snd (do_import example_constants
         (scenario_env\<lparr>writable := (\<lambda>path. path = ''out/observations.csv'')\<rparr>)
         example_importer Map.empty) ''out/debug_resolve.csv'' = None"
  by code_simp

text \<open>
  Claim C5. The scenario of the spec: the table with the rows \<^verbatim>\<open>e1,10\<close>, \<^verbatim>\<open>e2,20\<close>,
  \<^verbatim>\<open>dcid:X,30\<close> under the columns \<^verbatim>\<open>name\<close> and \<^verbatim>\<open>val\<close>, no reshaping, the override
  prefix \<^verbatim>\<open>dcid:\<close>, a marker of unresolved names other than the two identifiers, and a
  resolver that answers \<^verbatim>\<open>e1\<close> \<open>\<mapsto>\<close> \<^verbatim>\<open>E1\<close> for the candidates \<^verbatim>\<open>e1\<close>, \<^verbatim>\<open>e2\<close>. The run
  completes; the observations file holds the two rows \<^verbatim>\<open>E1,10\<close> and \<^verbatim>\<open>X,30\<close>, the
  debug-resolve file the rows of \<^verbatim>\<open>e2\<close> (marker, empty link), \<^verbatim>\<open>dcid:X\<close> and \<^verbatim>\<open>e1\<close>
  (identifier and link), in this order.
\<close>

theorem scenario_outputs:
  assumes prefix: "DCID_OVERRIDE_PREFIX c = ''dcid:''"
    and noreshape: "\<not> UNPIVOT_VARIABLES c"
    and marker: "DEBUG_UNRESOLVED_DCID c \<noteq> ''X'' \<and> DEBUG_UNRESOLVED_DCID c \<noteq> ''E1''"
    and dir: "makedirs_ok e (output_dir self)"
    and isfile: "\<not> isdir e (input_path self)"
    and input: "read_csv e (input_path self) = Inr scenario_frame"
    and ignore: "ignore_columns self = []"
    and resolver: "dc_resolve_entities e [''e1'', ''e2''] (entity_type self) = Inr [(''e1'', ''E1'')]"
    and order: "set (list_of_set e {''e2''}) = {''e2''} \<and> distinct (list_of_set e {''e2''})"
    and wr: "writable e (observations_file c self) \<and> writable e (debug_resolve_file c self)"
  shows "do_import c e self w =
     (Inr (),
      w(observations_file c self \<mapsto>
          ([COLUMN_DCID c, ''val''], [[Str ''E1'', Num 10], [Str ''X'', Num 30]]),
        debug_resolve_file c self \<mapsto>
          ([DEBUG_COLUMN_NAME c, DEBUG_COLUMN_DCID c, DEBUG_COLUMN_LINK c],
           [[Str ''e2'', Str (DEBUG_UNRESOLVED_DCID c), Str []],
            [Str ''dcid:X'', Str ''X'', Str (DC_BROWSER c @ ''/X'')],
            [Str ''e1'', Str ''E1'', Str (DC_BROWSER c @ ''/E1'')]])))"
proof -
  let ?df = "\<lparr>columns = [COLUMN_DCID c, ''val''],
      rows = [(0, [Str ''e1'', Num 10]), (1, [Str ''e2'', Num 20]), (2, [Str ''dcid:X'', Num 30])]\<rparr>"
  have read: "read_csvs e self = Inr scenario_frame"
    using isfile input by (simp add: read_csvs_def)
  have norm: "drop_ignored_columns self scenario_frame = Inr scenario_frame"
    using ignore by (simp add: drop_ignored_columns_def)
  have rename: "rename_columns c scenario_frame = Inr ?df"
    using noreshape by (simp add: rename_columns_def set_column_label_def scenario_frame_def)
  have col: "iloc_col0 ?df = Inr [Str ''e1'', Str ''e2'', Str ''dcid:X'']"
    by (simp add: iloc_col0_def cell_at_def)
  have ents: "filter_entities c [Str ''e1'', Str ''e2'', Str ''dcid:X''] [] =
      Inr ([''e1'', ''e2''], [(''dcid:X'', ''X'')])"
    by (simp add: remove_pre_resolved_def prefix startswith_def strip_def isspace_def)
  have U: "set [''e1'', ''e2''] - set (map fst [(''e1'', ''E1'')]) = {''e2''}"
    by auto
  have ul: "list_of_set e {''e2''} = [''e2'']"
    using order by (simp add: singleton_list)
  have resolve: "resolve_entities c e self ?df =
      Inr (\<lparr>columns = [COLUMN_DCID c, ''val''],
             rows = [(0, [Str ''E1'', Num 10]), (2, [Str ''X'', Num 30])]\<rparr>,
           \<lparr>columns = [DEBUG_COLUMN_NAME c, DEBUG_COLUMN_DCID c, DEBUG_COLUMN_LINK c],
             rows = [(0, [Str ''e2'', Str (DEBUG_UNRESOLVED_DCID c), Str []]),
                     (1, [Str ''dcid:X'', Str ''X'', Str (DC_BROWSER c @ ''/X'')]),
                     (2, [Str ''e1'', Str ''E1'', Str (DC_BROWSER c @ ''/E1'')])]\<rparr>)"
    unfolding resolve_entities_eq [OF col ents resolver] U ul
    using marker
    by (auto simp: replace_col0_def series_replace_def isin_index_def isin_def cell_at_def
        drop_rows_def create_debug_resolve_dataframe_def browser_link_def)
  have "transform c e self scenario_frame =
      Inr (\<lparr>columns = [COLUMN_DCID c, ''val''],
             rows = [(0, [Str ''E1'', Num 10]), (2, [Str ''X'', Num 30])]\<rparr>,
           \<lparr>columns = [DEBUG_COLUMN_NAME c, DEBUG_COLUMN_DCID c, DEBUG_COLUMN_LINK c],
             rows = [(0, [Str ''e2'', Str (DEBUG_UNRESOLVED_DCID c), Str []]),
                     (1, [Str ''dcid:X'', Str ''X'', Str (DC_BROWSER c @ ''/X'')]),
                     (2, [Str ''e1'', Str ''E1'', Str (DC_BROWSER c @ ''/E1'')])]\<rparr>)"
    using noreshape by (simp add: transform_def norm rename resolve del: One_nat_def)
  then show ?thesis
    using dir read wr
    by (simp add: do_import_def init_def write_csvs_def to_csv_def csv_of_def)
qed

theorem scenario_outputs_witness:
  "do_import example_constants scenario_env example_importer Map.empty =
     (Inr (),
      [''out/observations.csv'' \<mapsto>
          ([''dcid'', ''val''], [[Str ''E1'', Num 10], [Str ''X'', Num 30]]),
       ''out/debug_resolve.csv'' \<mapsto>
          ([''name'', ''dcid'', ''link''],
           [[Str ''e2'', Str ''UNRESOLVED'', Str []],
            [Str ''dcid:X'', Str ''X'', Str ''https://datacommons.org/browser/X''],
            [Str ''e1'', Str ''E1'', Str ''https://datacommons.org/browser/E1'']])])"
proof -
  have prefix: "DCID_OVERRIDE_PREFIX example_constants = ''dcid:''"
    by code_simp
  have noreshape: "\<not> UNPIVOT_VARIABLES example_constants"
    by code_simp
  have marker: "DEBUG_UNRESOLVED_DCID example_constants \<noteq> ''X'' \<and>
      DEBUG_UNRESOLVED_DCID example_constants \<noteq> ''E1''"
    by code_simp
  have dir: "makedirs_ok scenario_env (output_dir example_importer)"
    by code_simp
  have isfile: "\<not> isdir scenario_env (input_path example_importer)"
    by code_simp
  have input: "read_csv scenario_env (input_path example_importer) = Inr scenario_frame"
    by code_simp
  have ignore: "ignore_columns example_importer = []"
    by code_simp
  have resolver: "dc_resolve_entities scenario_env [''e1'', ''e2''] (entity_type example_importer) =
      Inr [(''e1'', ''E1'')]"
    by code_simp
  have order: "set (list_of_set scenario_env {''e2''}) = {''e2''} \<and>
      distinct (list_of_set scenario_env {''e2''})"
    by code_simp
  have wr: "writable scenario_env (observations_file example_constants example_importer) \<and>
      writable scenario_env (debug_resolve_file example_constants example_importer)"
    by code_simp
  have paths: "observations_file example_constants example_importer = ''out/observations.csv''"
    "debug_resolve_file example_constants example_importer = ''out/debug_resolve.csv''"
    by code_simp+
  from scenario_outputs [OF prefix noreshape marker dir isfile input ignore resolver order wr,
      of Map.empty]
  show ?thesis
    unfolding paths by (simp add: example_constants_def)
qed

section \<open>The order of iteration over the unresolved names\<close>









lemma reshape_same:
  "(if UNPIVOT_VARIABLES c
    then (case unpivot_variables c df of Inl err \<Rightarrow> Inl err
          | Inr df4 \<Rightarrow> Inr (reorder_columns c df4, dbg))
    else Inr (df, dbg)) =
   (case (if UNPIVOT_VARIABLES c
          then (case unpivot_variables c df of Inl err \<Rightarrow> Inl err
                | Inr df4 \<Rightarrow> Inr (reorder_columns c df4))
          else Inr df) of Inl err \<Rightarrow> Inl err | Inr out \<Rightarrow> Inr (out, dbg))"
  by (simp split: sum.splits)










section \<open>Claims on the reshaper\<close>














end
